theory Spec2Isabelle
  imports Main "HOL-Library.AList"
begin

section \<open>The research server: topic stores, resolver and text extraction\<close>

text \<open>
  A shallow embedding of \<^verbatim>\<open>research_server.py\<close>: the three tools
  \<^verbatim>\<open>search_papers\<close>, \<^verbatim>\<open>extract_info\<close> and \<^verbatim>\<open>extract_text_paper\<close>.
  The file system is explicit state that every operating-system call receives and
  returns. The libraries the program calls (the arXiv client, the JSON codec and the
  PDF reader) are parameters, collected in the record \<open>lib\<close>: every theorem holds for
  each behaviour they may have. Output printed to the console is not part of the state.
\<close>

subsection \<open>Exceptions\<close>

datatype error =
    FileNotFoundError
  | NotADirectoryError
  | IsADirectoryError
  | FileExistsError
  | JSONDecodeError
  | UnicodeDecodeError
  | RecursionError
  | PdfReadError
  | NotImplementedError
  | KeyError
  | TypeError
  | UpstreamError

subsection \<open>Strings and paths\<close>

text \<open>
  A string is the UTF-8 encoding of a Python \<open>str\<close>, a list of bytes. The characters the
  program itself looks for (the space, the separator \<open>/\<close>, the dot) are ASCII, and UTF-8
  keeps an ASCII character as one byte that occurs nowhere else. \<^verbatim>\<open>str.lower\<close> follows
  the Unicode tables and may change the length of a string: it is a parameter (the field
  \<open>str_lower\<close> of \<open>lib\<close> below).
\<close>

text \<open>\<^verbatim>\<open>s.replace(old, new)\<close> for one-character \<open>old\<close> and \<open>new\<close>.\<close>

definition str_replace :: "char \<Rightarrow> char \<Rightarrow> string \<Rightarrow> string" where
  "str_replace old new s = map (\<lambda>c. if c = old then new else c) s"

text \<open>
  \<^verbatim>\<open>posixpath.join(a, b)\<close>: an absolute \<open>b\<close> replaces \<open>a\<close>; otherwise \<open>b\<close> is
  appended, after a separator unless \<open>a\<close> is empty or ends with one.
\<close>

definition os_path_join :: "string \<Rightarrow> string \<Rightarrow> string" where
  "os_path_join a b =
     (if b \<noteq> [] \<and> hd b = CHR ''/'' then b
      else if a = [] \<or> last a = CHR ''/'' then a @ b
      else a @ ''/'' @ b)"

text \<open>
  \<^verbatim>\<open>str.rfind\<close> of one character, as \<open>None\<close> for Python's \<open>-1\<close>.
\<close>

fun rfind_from :: "char \<Rightarrow> string \<Rightarrow> nat \<Rightarrow> nat option \<Rightarrow> nat option" where
  "rfind_from c [] i acc = acc"
| "rfind_from c (x # xs) i acc = rfind_from c xs (Suc i) (if x = c then Some i else acc)"

definition rfind :: "char \<Rightarrow> string \<Rightarrow> nat option" where
  "rfind c s = rfind_from c s 0 None"

text \<open>
  \<^verbatim>\<open>os.path.splitext(p)[0]\<close>: the path up to the last dot, when that dot lies in the
  last component and some character of the component before it is not a dot.
\<close>

definition splitext_root :: "string \<Rightarrow> string" where
  "splitext_root p =
     (case rfind CHR ''.'' p of
        None \<Rightarrow> p
      | Some dotIndex \<Rightarrow>
          (let filenameIndex = (case rfind CHR ''/'' p of None \<Rightarrow> 0 | Some sepIndex \<Rightarrow> Suc sepIndex)
           in if filenameIndex \<le> dotIndex \<and>
                 list_ex (\<lambda>c. c \<noteq> CHR ''.'') (take (dotIndex - filenameIndex) (drop filenameIndex p))
              then take dotIndex p else p))"

text \<open>Decimal rendering of a natural number, \<^verbatim>\<open>str(n)\<close>.\<close>

definition digit_char :: "nat \<Rightarrow> char" where
  "digit_char d = char_of (48 + d)"

fun str_nat :: "nat \<Rightarrow> string" where
  "str_nat n = (if n < 10 then [digit_char n] else str_nat (n div 10) @ [digit_char (n mod 10)])"

declare str_nat.simps [simp del]

text \<open>Zero padding to a width, as \<^verbatim>\<open>%04d\<close> and \<^verbatim>\<open>%02d\<close> do.\<close>

definition zfill :: "nat \<Rightarrow> string \<Rightarrow> string" where
  "zfill w s = replicate (w - length s) CHR ''0'' @ s"

subsection \<open>The file system\<close>

text \<open>
  A node is a regular file with its content, or a directory. The file system lists the
  nodes by path; the first entry of a path is the node there, and the order of the list
  is the order in which \<^verbatim>\<open>os.listdir\<close> enumerates. Paths are compared as written: the
  model has no symbolic links and does not rewrite \<open>.\<close>, \<open>..\<close> or doubled separators.
\<close>

datatype node = File string | Dir

type_synonym fs = "(string \<times> node) list"

definition file_content :: "fs \<Rightarrow> string \<Rightarrow> string option" where
  "file_content s p = (case map_of s p of Some (File c) \<Rightarrow> Some c | _ \<Rightarrow> None)"

definition is_dir :: "fs \<Rightarrow> string \<Rightarrow> bool" where
  "is_dir s p = (map_of s p = Some Dir)"

definition os_path_isdir :: "string \<Rightarrow> fs \<Rightarrow> bool \<times> fs" where
  "os_path_isdir p s = (is_dir s p, s)"

definition os_path_isfile :: "string \<Rightarrow> fs \<Rightarrow> bool \<times> fs" where
  "os_path_isfile p s = (file_content s p \<noteq> None, s)"

text \<open>The name of \<open>p\<close> as an entry of directory \<open>d\<close>, if it is one.\<close>

definition child_name :: "string \<Rightarrow> string \<Rightarrow> string option" where
  "child_name d p =
     (let k = length d + 1; n = drop k p
      in if take k p = d @ ''/'' \<and> n \<noteq> [] \<and> CHR ''/'' \<notin> set n then Some n else None)"

definition os_listdir :: "string \<Rightarrow> fs \<Rightarrow> (error + string list) \<times> fs" where
  "os_listdir d s =
     (case map_of s d of
        None \<Rightarrow> (Inl FileNotFoundError, s)
      | Some (File c) \<Rightarrow> (Inl NotADirectoryError, s)
      | Some Dir \<Rightarrow> (Inr (List.map_filter (child_name d) (map fst s)), s))"

text \<open>\<^verbatim>\<open>open(p, "r")\<close> followed by reading the whole file.\<close>

definition read_file :: "string \<Rightarrow> fs \<Rightarrow> (error + string) \<times> fs" where
  "read_file p s =
     (case map_of s p of
        None \<Rightarrow> (Inl FileNotFoundError, s)
      | Some Dir \<Rightarrow> (Inl IsADirectoryError, s)
      | Some (File c) \<Rightarrow> (Inr c, s))"

text \<open>
  \<^verbatim>\<open>open(p, "w")\<close> followed by writing \<open>c\<close>: the file is created or replaced. At both
  places where the program writes, the directory of \<open>p\<close> exists (it was just created, or
  it holds the input file).
\<close>

definition write_file :: "string \<Rightarrow> string \<Rightarrow> fs \<Rightarrow> (error + unit) \<times> fs" where
  "write_file p c s =
     (case map_of s p of
        Some Dir \<Rightarrow> (Inl IsADirectoryError, s)
      | _ \<Rightarrow> (Inr (), AList.update p (File c) s))"

text \<open>The proper ancestors of a path, the shortest first.\<close>

definition parents :: "string \<Rightarrow> string list" where
  "parents p = map (\<lambda>i. take i p) (filter (\<lambda>i. p ! i = CHR ''/'') [1..<length p])"

text \<open>
  \<^verbatim>\<open>os.makedirs(p, exist_ok=True)\<close>: every missing ancestor is created, from the root
  down, then \<open>p\<close> itself. An ancestor that is a regular file raises
  \<open>NotADirectoryError\<close>; \<open>p\<close> being a regular file raises \<open>FileExistsError\<close>; an existing
  directory is accepted.
\<close>

fun mkdir_parents :: "string list \<Rightarrow> fs \<Rightarrow> (error + unit) \<times> fs" where
  "mkdir_parents [] s = (Inr (), s)"
| "mkdir_parents (a # as) s =
     (case map_of s a of
        None \<Rightarrow> mkdir_parents as (s @ [(a, Dir)])
      | Some Dir \<Rightarrow> mkdir_parents as s
      | Some (File c) \<Rightarrow> (Inl NotADirectoryError, s))"

definition os_makedirs :: "string \<Rightarrow> fs \<Rightarrow> (error + unit) \<times> fs" where
  "os_makedirs p s =
     (case mkdir_parents (parents p) s of
        (Inl e, s1) \<Rightarrow> (Inl e, s1)
      | (Inr u, s1) \<Rightarrow>
          (case map_of s1 p of
             None \<Rightarrow> (Inr (), s1 @ [(p, Dir)])
           | Some Dir \<Rightarrow> (Inr (), s1)
           | Some (File c) \<Rightarrow> (Inl FileExistsError, s1)))"

subsection \<open>JSON values and Python's dictionary operations\<close>

text \<open>
  What \<^verbatim>\<open>json.load\<close> returns. An object is a Python \<open>dict\<close>: an association list in
  insertion order, looked up with \<open>map_of\<close>. A number is never iterated or indexed with
  success by this program, so integers stand for all numbers.
\<close>

datatype json =
    JNull
  | JBool bool
  | JNum int
  | JStr string
  | JArr "json list"
  | JObj "(string \<times> json) list"

text \<open>
  \<^verbatim>\<open>papers_info[key] = value\<close>: on a dict the entry is replaced in place or appended;
  every other JSON value raises \<open>TypeError\<close>.
\<close>

fun setitem :: "json \<Rightarrow> string \<Rightarrow> json \<Rightarrow> error + json" where
  "setitem (JObj al) k v = Inr (JObj (AList.update k v al))"
| "setitem j k v = Inl TypeError"

fun is_substr :: "string \<Rightarrow> string \<Rightarrow> bool" where
  "is_substr k [] = (k = [])"
| "is_substr k (c # cs) = (take (length k) (c # cs) = k \<or> is_substr k cs)"

text \<open>
  \<^verbatim>\<open>key in papers_info\<close>: key membership on a dict, element membership on a list,
  substring test on a string, \<open>TypeError\<close> on the rest.
\<close>

fun contains :: "json \<Rightarrow> string \<Rightarrow> error + bool" where
  "contains (JObj al) k = Inr (k \<in> set (map fst al))"
| "contains (JArr xs) k = Inr (JStr k \<in> set xs)"
| "contains (JStr s) k = Inr (is_substr k s)"
| "contains j k = Inl TypeError"

text \<open>\<^verbatim>\<open>papers_info[key]\<close> with a string key.\<close>

fun getitem :: "json \<Rightarrow> string \<Rightarrow> error + json" where
  "getitem (JObj al) k = (case map_of al k of None \<Rightarrow> Inl KeyError | Some v \<Rightarrow> Inr v)"
| "getitem j k = Inl TypeError"

subsection \<open>The libraries\<close>

text \<open>
  One hit of the arXiv client, with the attributes the program reads: the short id,
  the title, the authors' names in order, the summary, the PDF link (absent for an entry
  without one) and the publication time.
\<close>

record datetime =
  year :: nat
  month :: nat
  day :: nat
  hour :: nat
  minute :: nat
  second :: nat

record paper =
  get_short_id :: string
  title :: string
  authors :: "string list"
  summary :: string
  pdf_url :: "string option"
  published :: datetime

text \<open>
  \<^verbatim>\<open>client.results(search)\<close> returns a generator: the request is sent when the \<open>for\<close>
  loop asks for the first hit. \<open>Generator hits fails\<close> yields \<open>hits\<close> in order and then
  ends, or raises when \<open>fails\<close> holds. \<open>RaiseAtCall\<close> is a client that raises before
  it returns the generator.
\<close>

datatype results = RaiseAtCall | Generator "paper list" bool

text \<open>
  A page of a parsed PDF: \<open>Page t\<close> when \<^verbatim>\<open>extract_text()\<close> returns \<open>t\<close>, \<open>PageError e\<close>
  when reading the page raises \<open>e\<close> (\<open>PdfReadError\<close>, or another exception of the library).
\<close>

datatype page = Page string | PageError error

text \<open>
  \<^item> \<open>client_results topic max_results\<close>: the arXiv client on a relevance search;
  \<^item> \<open>str_lower\<close>: \<^verbatim>\<open>str.lower\<close>;
  \<^item> \<open>json_loads\<close>: \<^verbatim>\<open>json.load\<close> on a file opened as text, given the file's bytes: the
    value, or the exception raised (\<open>JSONDecodeError\<close> for text that is not JSON,
    \<open>UnicodeDecodeError\<close> for bytes that are not text, \<open>RecursionError\<close> for nesting that
    is too deep);
  \<^item> \<open>json_dumps\<close>: \<^verbatim>\<open>json.dumps(_, indent=2)\<close>, also what \<^verbatim>\<open>json.dump\<close> writes;
  \<^item> \<open>pdf_reader\<close>: \<^verbatim>\<open>PyPDF2.PdfReader\<close> on a file's bytes with \<^verbatim>\<open>len(reader.pages)\<close>:
    the pages, or the exception raised (\<open>PdfReadError\<close>, or another one such as
    \<open>KeyError\<close>).
\<close>

record lib =
  client_results :: "string \<Rightarrow> int \<Rightarrow> results"
  str_lower :: "string \<Rightarrow> string"
  json_loads :: "string \<Rightarrow> error + json"
  json_dumps :: "json \<Rightarrow> string"
  pdf_reader :: "string \<Rightarrow> error + page list"

subsection \<open>search_papers\<close>

definition PAPER_DIR :: string where
  "PAPER_DIR = ''papers''"

text \<open>\<^verbatim>\<open>str(paper.published.date())\<close>: the time of day is dropped.\<close>

definition date_str :: "datetime \<Rightarrow> string" where
  "date_str d =
     zfill 4 (str_nat (year d)) @ ''-'' @ zfill 2 (str_nat (month d)) @ ''-'' @
     zfill 2 (str_nat (day d))"

definition paper_info :: "paper \<Rightarrow> json" where
  "paper_info p =
     JObj [(''title'', JStr (title p)),
           (''authors'', JArr (map JStr (authors p))),
           (''summary'', JStr (summary p)),
           (''pdf_url'', (case pdf_url p of None \<Rightarrow> JNull | Some u \<Rightarrow> JStr u)),
           (''published'', JStr (date_str (published p)))]"

text \<open>\<^verbatim>\<open>topic.lower().replace(" ", "_")\<close>\<close>

definition topic_dirname :: "lib \<Rightarrow> string \<Rightarrow> string" where
  "topic_dirname L topic = str_replace CHR '' '' CHR ''_'' (str_lower L topic)"

definition topic_path :: "lib \<Rightarrow> string \<Rightarrow> string" where
  "topic_path L topic = os_path_join PAPER_DIR (topic_dirname L topic)"

definition topic_file :: "lib \<Rightarrow> string \<Rightarrow> string" where
  "topic_file L topic = os_path_join (topic_path L topic) ''papers_info.json''"

text \<open>
  The \<^verbatim>\<open>try\<close> block that loads the existing store. The \<^verbatim>\<open>except\<close> clause names
  \<open>FileNotFoundError\<close> and \<open>JSONDecodeError\<close>: these give the empty dict, every other
  exception of the block propagates.
\<close>

definition try_load :: "lib \<Rightarrow> string \<Rightarrow> fs \<Rightarrow> (error + json) \<times> fs" where
  "try_load L file_path s =
     (case read_file file_path s of
        (Inl e, s1) \<Rightarrow> (Inl e, s1)
      | (Inr text, s1) \<Rightarrow> (json_loads L text, s1))"

definition load_papers_info :: "lib \<Rightarrow> string \<Rightarrow> fs \<Rightarrow> (error + json) \<times> fs" where
  "load_papers_info L file_path s =
     (case try_load L file_path s of
        (Inl e, s1) \<Rightarrow>
          if e = FileNotFoundError \<or> e = JSONDecodeError then (Inr (JObj []), s1)
          else (Inl e, s1)
      | (Inr papers_info, s1) \<Rightarrow> (Inr papers_info, s1))"

text \<open>The body of the \<^verbatim>\<open>for\<close> loop over the hits the generator yields.\<close>

fun process_papers :: "paper list \<Rightarrow> json \<Rightarrow> string list \<Rightarrow> error + json \<times> string list" where
  "process_papers [] papers_info paper_ids = Inr (papers_info, paper_ids)"
| "process_papers (p # ps) papers_info paper_ids =
     (case setitem papers_info (get_short_id p) (paper_info p) of
        Inl e \<Rightarrow> Inl e
      | Inr papers_info' \<Rightarrow> process_papers ps papers_info' (paper_ids @ [get_short_id p]))"

definition search_papers :: "lib \<Rightarrow> string \<Rightarrow> int \<Rightarrow> fs \<Rightarrow> (error + string list) \<times> fs" where
  "search_papers L topic max_results s =
     (case client_results L topic max_results of
        RaiseAtCall \<Rightarrow> (Inl UpstreamError, s)
      | Generator hits fails \<Rightarrow>
          (case os_makedirs (topic_path L topic) s of
             (Inl e, s1) \<Rightarrow> (Inl e, s1)
           | (Inr u, s1) \<Rightarrow>
               (case load_papers_info L (topic_file L topic) s1 of
                  (Inl e, s2) \<Rightarrow> (Inl e, s2)
                | (Inr papers_info, s2) \<Rightarrow>
                    (case process_papers hits papers_info [] of
                       Inl e \<Rightarrow> (Inl e, s2)
                     | Inr (papers_info', paper_ids) \<Rightarrow>
                         if fails then (Inl UpstreamError, s2)
                         else
                           (case write_file (topic_file L topic) (json_dumps L papers_info') s2 of
                              (Inl e, s3) \<Rightarrow> (Inl e, s3)
                            | (Inr u', s3) \<Rightarrow> (Inr paper_ids, s3))))))"

subsection \<open>extract_info\<close>

definition not_found_message :: "string \<Rightarrow> string" where
  "not_found_message paper_id =
     ''There's no saved information related to paper '' @ paper_id @ ''.''"

text \<open>
  The body of the \<^verbatim>\<open>try\<close> block for one store: \<open>Some\<close> of the text to return when
  the store has the id, \<open>None\<close> when it does not.
\<close>

definition lookup_store :: "lib \<Rightarrow> string \<Rightarrow> string \<Rightarrow> fs \<Rightarrow> (error + string option) \<times> fs" where
  "lookup_store L paper_id file_path s =
     (case read_file file_path s of
        (Inl e, s1) \<Rightarrow> (Inl e, s1)
      | (Inr text, s1) \<Rightarrow>
          (case json_loads L text of
             Inl e \<Rightarrow> (Inl e, s1)
           | Inr papers_info \<Rightarrow>
               (case contains papers_info paper_id of
                  Inl e \<Rightarrow> (Inl e, s1)
                | Inr False \<Rightarrow> (Inr None, s1)
                | Inr True \<Rightarrow>
                    (case getitem papers_info paper_id of
                       Inl e \<Rightarrow> (Inl e, s1)
                     | Inr v \<Rightarrow> (Inr (Some (json_dumps L v)), s1)))))"

fun scan_items :: "lib \<Rightarrow> string \<Rightarrow> string list \<Rightarrow> fs \<Rightarrow> (error + string) \<times> fs" where
  "scan_items L paper_id [] s = (Inr (not_found_message paper_id), s)"
| "scan_items L paper_id (item # items) s =
     (let item_path = os_path_join PAPER_DIR item in
      case os_path_isdir item_path s of
        (False, s1) \<Rightarrow> scan_items L paper_id items s1
      | (True, s1) \<Rightarrow>
          (let file_path = os_path_join item_path ''papers_info.json'' in
           case os_path_isfile file_path s1 of
             (False, s2) \<Rightarrow> scan_items L paper_id items s2
           | (True, s2) \<Rightarrow>
               (case lookup_store L paper_id file_path s2 of
                  (Inl e, s3) \<Rightarrow>
                    if e = JSONDecodeError \<or> e = FileNotFoundError
                    then scan_items L paper_id items s3
                    else (Inl e, s3)
                | (Inr (Some r), s3) \<Rightarrow> (Inr r, s3)
                | (Inr None, s3) \<Rightarrow> scan_items L paper_id items s3)))"

definition extract_info :: "lib \<Rightarrow> string \<Rightarrow> fs \<Rightarrow> (error + string) \<times> fs" where
  "extract_info L paper_id s =
     (case os_listdir PAPER_DIR s of
        (Inl e, s1) \<Rightarrow> (Inl e, s1)
      | (Inr items, s1) \<Rightarrow> scan_items L paper_id items s1)"

subsection \<open>extract_text_paper\<close>

definition newline :: char where
  "newline = CHR 0x0A"

text \<open>
  The loop over the pages: a page with text appends the text and two newlines, a page
  without text appends nothing, a page that cannot be read raises its exception.
\<close>

fun extract_pages :: "page list \<Rightarrow> string \<Rightarrow> error + string" where
  "extract_pages [] total_text = Inr total_text"
| "extract_pages (Page page_text # ps) total_text =
     extract_pages ps
       (if page_text \<noteq> [] then total_text @ page_text @ [newline, newline] else total_text)"
| "extract_pages (PageError e # ps) total_text = Inl e"

text \<open>
  The body of the \<^verbatim>\<open>try\<close> block. The result is \<open>Some\<close> of the output path, or \<open>None\<close>
  for Python's \<^verbatim>\<open>None\<close>.
\<close>

definition try_extract :: "lib \<Rightarrow> string \<Rightarrow> fs \<Rightarrow> (error + string option) \<times> fs" where
  "try_extract L paper_path s =
     (case os_path_isfile paper_path s of
        (False, s1) \<Rightarrow> (Inr None, s1)
      | (True, s1) \<Rightarrow>
          (case read_file paper_path s1 of
             (Inl e, s2) \<Rightarrow> (Inl e, s2)
           | (Inr bytes, s2) \<Rightarrow>
               (case pdf_reader L bytes of
                  Inl e \<Rightarrow> (Inl e, s2)
                | Inr pages \<Rightarrow>
                    (case extract_pages pages [] of
                       Inl e \<Rightarrow> (Inl e, s2)
                     | Inr total_text \<Rightarrow>
                         (let output_path = splitext_root paper_path @ ''.txt'' in
                          case write_file output_path total_text s2 of
                            (Inl e, s3) \<Rightarrow> (Inl e, s3)
                          | (Inr u, s3) \<Rightarrow> (Inr (Some output_path), s3))))))"

text \<open>
  The \<^verbatim>\<open>except\<close> clause names \<open>PdfReadError\<close> only: it gives \<open>None\<close>, every other
  exception of the block propagates.
\<close>

definition extract_text_paper :: "lib \<Rightarrow> string \<Rightarrow> fs \<Rightarrow> (error + string option) \<times> fs" where
  "extract_text_paper L paper_path s =
     (case try_extract L paper_path s of
        (Inl e, s1) \<Rightarrow> if e = PdfReadError then (Inr None, s1) else (Inl e, s1)
      | (Inr r, s1) \<Rightarrow> (Inr r, s1))"

subsection \<open>Concrete libraries and a concrete file system\<close>

text \<open>
  Stand-ins for the three libraries and a small corpus, on which the theorems below are
  instantiated.
\<close>

definition paper_a :: paper where
  "paper_a =
     \<lparr>get_short_id = ''2101.00001v1'', title = ''First'', authors = [''Ann'', ''Bob''],
      summary = ''S1'', pdf_url = Some ''http://arxiv.org/pdf/2101.00001v1'',
      published = \<lparr>year = 2021, month = 1, day = 2, hour = 3, minute = 4, second = 5\<rparr>\<rparr>"

definition paper_a2 :: paper where
  "paper_a2 = paper_a\<lparr>title := ''First, revised''\<rparr>"

definition demo_client :: "string \<Rightarrow> int \<Rightarrow> results" where
  "demo_client topic max_results =
     (if topic = ''Quantum Computing'' then Generator [paper_a, paper_a2] False
      else if topic = ''Broken Stream'' then Generator [paper_a] True
      else if topic = ''Down'' then RaiseAtCall
      else Generator [] False)"

text \<open>\<^verbatim>\<open>str.lower\<close> as it acts on ASCII text: \<open>A\<close>..\<open>Z\<close> become \<open>a\<close>..\<open>z\<close>.\<close>

definition ascii_lower_char :: "char \<Rightarrow> char" where
  "ascii_lower_char c =
     (let n = (of_char c :: nat) in if 65 \<le> n \<and> n \<le> 90 then char_of (n + 32) else c)"

definition ascii_lower :: "string \<Rightarrow> string" where
  "ascii_lower s = map ascii_lower_char s"

text \<open>The bytes \<open>FF FE\<close> are not UTF-8 text: reading them as text raises.\<close>

definition demo_loads :: "string \<Rightarrow> error + json" where
  "demo_loads text =
     (if text = ''{}'' then Inr (JObj [])
      else if text = ''OLD'' then
        Inr (JObj [(''2101.00001v1'', JStr ''stale''), (''1909.03550v1'', JStr ''kept'')])
      else if text = [CHR 0xFF, CHR 0xFE] then Inl UnicodeDecodeError
      else Inl JSONDecodeError)"

definition demo_dumps :: "json \<Rightarrow> string" where
  "demo_dumps j = (if j = JObj [] then ''{}'' else ''NEW'')"

definition demo_reader :: "string \<Rightarrow> error + page list" where
  "demo_reader bytes =
     (if bytes = ''%PDF two pages'' then Inr [Page ''Page 1'', Page ''Page 2'']
      else if bytes = ''%PDF damaged page'' then Inr [Page ''Page 1'', PageError PdfReadError]
      else if bytes = ''%PDF odd font'' then Inr [Page ''Page 1'', PageError NotImplementedError]
      else if bytes = ''%PDF no root'' then Inl KeyError
      else Inl PdfReadError)"

definition demo_lib :: lib where
  "demo_lib =
     \<lparr>client_results = demo_client, str_lower = ascii_lower, json_loads = demo_loads,
      json_dumps = demo_dumps, pdf_reader = demo_reader\<rparr>"

definition demo_fs :: fs where
  "demo_fs =
     [(''papers'', Dir),
      (''papers/quantum_computing'', Dir),
      (''papers/quantum_computing/papers_info.json'', File ''OLD''),
      (''papers/notes'', Dir),
      (''papers/notes/papers_info.json'', File ''not json''),
      (''papers/binary'', Dir),
      (''papers/binary/papers_info.json'', File [CHR 0xFF, CHR 0xFE]),
      (''doc.pdf'', File ''%PDF two pages''),
      (''scan.pdf'', File ''%PDF damaged page''),
      (''font.pdf'', File ''%PDF odd font''),
      (''broken.pdf'', File ''%PDF no root''),
      (''notes.txt'', File ''plain text'')]"

section \<open>Properties\<close>

subsection \<open>The file system operations\<close>

lemma map_of_append_fresh:
  "map_of s a = None \<Longrightarrow> map_of (s @ [(a, v)]) q = (if q = a then Some v else map_of s q)"
  by (induction s) auto

lemma mkdir_parents_map_of:
  "q \<notin> set as \<Longrightarrow> map_of (snd (mkdir_parents as s)) q = map_of s q"
proof (induction as arbitrary: s)
  case Nil
  then show ?case by simp
next
  case (Cons a as)
  then show ?case
    by (cases "map_of s a") (auto simp: map_of_append_fresh simp del: map_of_append split: node.splits)
qed

lemma mkdir_parents_file_content:
  "file_content (snd (mkdir_parents as s)) q = file_content s q"
proof (induction as arbitrary: s)
  case Nil
  then show ?case by simp
next
  case (Cons a as)
  show ?case
  proof (cases "map_of s a")
    case None
    then have "file_content (s @ [(a, Dir)]) q = file_content s q"
      by (simp add: file_content_def map_of_append_fresh del: map_of_append)
    with None Cons show ?thesis by simp
  next
    case (Some v)
    with Cons show ?thesis by (cases v) simp_all
  qed
qed

lemma os_makedirs_file_content:
  "file_content (snd (os_makedirs p s)) q = file_content s q"
proof -
  obtain r s1 where m: "mkdir_parents (parents p) s = (r, s1)"
    by (cases "mkdir_parents (parents p) s")
  have fc: "file_content s1 q = file_content s q"
    using mkdir_parents_file_content [of "parents p" s q] m by simp
  show ?thesis
  proof (cases r)
    case (Inl e)
    with m fc show ?thesis by (simp add: os_makedirs_def)
  next
    case (Inr u)
    show ?thesis
    proof (cases "map_of s1 p")
      case None
      then have "file_content (s1 @ [(p, Dir)]) q = file_content s1 q"
        by (simp add: file_content_def map_of_append_fresh del: map_of_append)
      with None Inr m fc show ?thesis by (simp add: os_makedirs_def)
    next
      case (Some v)
      with Inr m fc show ?thesis by (cases v) (simp_all add: os_makedirs_def)
    qed
  qed
qed

lemma os_makedirs_is_dir:
  "fst (os_makedirs p s) = Inr u \<Longrightarrow> is_dir (snd (os_makedirs p s)) p"
  by (auto simp: os_makedirs_def is_dir_def map_of_append_fresh simp del: map_of_append
           split: prod.splits sum.splits option.splits node.splits)

lemma parents_shorter: "a \<in> set (parents p) \<Longrightarrow> length a < length p"
  by (auto simp: parents_def)

lemma os_makedirs_map_of:
  "length p < length q \<Longrightarrow> map_of (snd (os_makedirs p s)) q = map_of s q"
proof -
  assume l: "length p < length q"
  then have "q \<notin> set (parents p)"
    using parents_shorter [of q p] by auto
  then have "map_of (snd (mkdir_parents (parents p) s)) q = map_of s q"
    by (rule mkdir_parents_map_of)
  moreover have "q \<noteq> p" using l by auto
  ultimately show ?thesis
    by (auto simp: os_makedirs_def map_of_append_fresh simp del: map_of_append
             split: prod.splits sum.splits option.splits node.splits)
qed

lemma topic_file_longer: "length (topic_path L topic) < length (topic_file L topic)"
  by (simp add: topic_file_def os_path_join_def)

lemma write_file_file_content:
  "fst (write_file p c s) = Inr u \<Longrightarrow>
   file_content (snd (write_file p c s)) q = (if q = p then Some c else file_content s q)"
  by (auto simp: write_file_def file_content_def update_conv' split: option.splits node.splits)

lemma write_file_succeeds:
  "\<not> is_dir s p \<Longrightarrow> fst (write_file p c s) = Inr ()"
  by (auto simp: write_file_def is_dir_def split: option.splits node.splits)

lemma load_papers_info_state: "snd (load_papers_info L p s) = s"
  by (auto simp: load_papers_info_def try_load_def read_file_def
           split: option.splits node.splits sum.splits)

lemma load_papers_info_cong:
  "map_of s1 p = map_of s p \<Longrightarrow> fst (load_papers_info L p s1) = fst (load_papers_info L p s)"
  by (auto simp: load_papers_info_def try_load_def read_file_def
           split: option.splits node.splits sum.splits)

lemma find_snoc:
  "find P (xs @ [x]) = (case find P xs of None \<Rightarrow> (if P x then Some x else None) | Some y \<Rightarrow> Some y)"
  by (induction xs) auto

lemma process_papers_JObj:
  "\<exists>new. process_papers hits (JObj old) ids = Inr (JObj new, ids @ map get_short_id hits) \<and>
     (\<forall>i. map_of new i =
        (case find (\<lambda>h. get_short_id h = i) (rev hits) of
           None \<Rightarrow> map_of old i
         | Some h \<Rightarrow> Some (paper_info h)))"
proof (induction hits arbitrary: old ids)
  case Nil
  then show ?case by simp
next
  case (Cons p ps)
  let ?old' = "AList.update (get_short_id p) (paper_info p) old"
  from Cons [of ?old' "ids @ [get_short_id p]"]
  obtain new where
    run: "process_papers ps (JObj ?old') (ids @ [get_short_id p]) =
            Inr (JObj new, (ids @ [get_short_id p]) @ map get_short_id ps)"
    and look: "\<And>i. map_of new i =
        (case find (\<lambda>h. get_short_id h = i) (rev ps) of
           None \<Rightarrow> map_of ?old' i
         | Some h \<Rightarrow> Some (paper_info h))"
    by blast
  have "process_papers (p # ps) (JObj old) ids = Inr (JObj new, ids @ map get_short_id (p # ps))"
    using run by simp
  moreover have "map_of new i =
        (case find (\<lambda>h. get_short_id h = i) (rev (p # ps)) of
           None \<Rightarrow> map_of old i
         | Some h \<Rightarrow> Some (paper_info h))" for i
    using look [of i] by (simp add: find_snoc update_conv' split: option.splits)
  ultimately show ?case by blast
qed

lemma process_papers_ids:
  "process_papers hits j ids = Inr (j', ids') \<Longrightarrow> ids' = ids @ map get_short_id hits"
proof (induction hits arbitrary: j ids)
  case Nil
  then show ?case by simp
next
  case (Cons p ps)
  show ?case
  proof (cases j)
    case (JObj old)
    with Cons.prems have
      "process_papers ps (JObj (AList.update (get_short_id p) (paper_info p) old))
         (ids @ [get_short_id p]) = Inr (j', ids')"
      by simp
    from Cons.IH [OF this] show ?thesis by simp
  qed (use Cons.prems in simp_all)
qed

lemma process_papers_dict:
  "process_papers hits j ids = Inr r \<Longrightarrow> hits \<noteq> [] \<Longrightarrow> \<exists>old. j = JObj old"
  by (cases hits; cases j) auto

lemma find_in_set:
  "i \<in> f ` set xs \<Longrightarrow> \<exists>h. find (\<lambda>h. f h = i) (rev xs) = Some h \<and> h \<in> set xs \<and> f h = i"
proof -
  assume "i \<in> f ` set xs"
  then have "\<exists>h \<in> set (rev xs). f h = i" by auto
  then obtain h where "find (\<lambda>h. f h = i) (rev xs) = Some h"
    by (cases "find (\<lambda>h. f h = i) (rev xs)") (auto simp: find_None_iff)
  moreover from this have "h \<in> set (rev xs) \<and> f h = i"
    unfolding find_Some_iff using nth_mem by blast
  ultimately show ?thesis by simp
qed

lemma find_not_in_set:
  "i \<notin> f ` set xs \<Longrightarrow> find (\<lambda>h. f h = i) (rev xs) = None"
  by (auto simp: find_None_iff)

lemma search_papers_Inr:
  assumes "search_papers L topic n s = (Inr ids, s')"
  shows "\<exists>hits s1 j j'.
           client_results L topic n = Generator hits False \<and>
           os_makedirs (topic_path L topic) s = (Inr (), s1) \<and>
           load_papers_info L (topic_file L topic) s1 = (Inr j, s1) \<and>
           process_papers hits j [] = Inr (j', ids) \<and>
           write_file (topic_file L topic) (json_dumps L j') s1 = (Inr (), s')"
proof (cases "client_results L topic n")
  case RaiseAtCall
  with assms show ?thesis by (simp add: search_papers_def)
next
  case (Generator hits fails)
  obtain r1 s1 where m: "os_makedirs (topic_path L topic) s = (r1, s1)"
    by (cases "os_makedirs (topic_path L topic) s")
  obtain r2 s2 where l: "load_papers_info L (topic_file L topic) s1 = (r2, s2)"
    by (cases "load_papers_info L (topic_file L topic) s1")
  have s2: "s2 = s1" using load_papers_info_state [of L "topic_file L topic" s1] l by simp
  from assms Generator m l show ?thesis
    unfolding search_papers_def s2
    by (auto split: sum.splits prod.splits if_splits)
qed


lemma read_file_content: "file_content s p = Some c \<Longrightarrow> read_file p s = (Inr c, s)"
  by (auto simp: file_content_def read_file_def split: option.splits node.splits)

lemma file_content_not_dir: "file_content s p = Some c \<Longrightarrow> \<not> is_dir s p"
  by (auto simp: file_content_def is_dir_def split: option.splits node.splits)

subsection \<open>Merging into an existing store\<close>

text \<open>
  Claim C1. Let the topic's store exist and load as a mapping \<open>old\<close>, and let the search
  succeed with the hits \<open>hits\<close>. Then the call returns the hits' ids and saves a mapping
  \<open>new\<close> in which every id among the hits has the record built from the last hit with
  that id, every other id has the entry it had in \<open>old\<close>, and every key of \<open>old\<close> is
  still a key.
\<close>

theorem search_papers_merge:
  assumes res: "client_results L topic n = Generator hits False"
    and dir: "fst (os_makedirs (topic_path L topic) s) = Inr ()"
    and store: "file_content s (topic_file L topic) = Some text"
    and loads: "json_loads L text = Inr (JObj old)"
  shows "\<exists>new s'.
           search_papers L topic n s = (Inr (map get_short_id hits), s') \<and>
           file_content s' (topic_file L topic) = Some (json_dumps L (JObj new)) \<and>
           (\<forall>i \<in> get_short_id ` set hits.
              map_of new i = map_option paper_info (find (\<lambda>h. get_short_id h = i) (rev hits))) \<and>
           (\<forall>i. i \<notin> get_short_id ` set hits \<longrightarrow> map_of new i = map_of old i) \<and>
           (\<forall>i \<in> dom (map_of old). i \<in> dom (map_of new))"
proof -
  let ?f = "topic_file L topic"
  obtain s1 where m: "os_makedirs (topic_path L topic) s = (Inr (), s1)"
    using dir by (cases "os_makedirs (topic_path L topic) s") auto
  have fc1: "file_content s1 ?f = Some text"
    using os_makedirs_file_content [of "topic_path L topic" s ?f] m store by simp
  have l: "load_papers_info L ?f s1 = (Inr (JObj old), s1)"
    using read_file_content [OF fc1] loads by (simp add: load_papers_info_def try_load_def)
  obtain new where
    run: "process_papers hits (JObj old) [] = Inr (JObj new, map get_short_id hits)"
    and look: "\<And>i. map_of new i =
        (case find (\<lambda>h. get_short_id h = i) (rev hits) of
           None \<Rightarrow> map_of old i
         | Some h \<Rightarrow> Some (paper_info h))"
    using process_papers_JObj [of hits old "[]"] by auto
  let ?text' = "json_dumps L (JObj new)"
  have w: "fst (write_file ?f ?text' s1) = Inr ()"
    using file_content_not_dir [OF fc1] by (rule write_file_succeeds)
  obtain s' where w': "write_file ?f ?text' s1 = (Inr (), s')"
    using w by (cases "write_file ?f ?text' s1") auto
  have 1: "search_papers L topic n s = (Inr (map get_short_id hits), s')"
    by (simp add: search_papers_def res m l run w')
  have 2: "file_content s' ?f = Some ?text'"
    using write_file_file_content [OF w, of ?f] w' by simp
  have 3: "map_of new i = map_option paper_info (find (\<lambda>h. get_short_id h = i) (rev hits))"
    if "i \<in> get_short_id ` set hits" for i
    using find_in_set [OF that] look [of i] by auto
  have 4: "map_of new i = map_of old i" if "i \<notin> get_short_id ` set hits" for i
    using find_not_in_set [OF that] look [of i] by simp
  have 5: "i \<in> dom (map_of new)" if "i \<in> dom (map_of old)" for i
    using that look [of i] by (auto split: option.splits)
  from 1 2 3 4 5 show ?thesis by blast
qed

theorem search_papers_merge_witness:
  "client_results demo_lib ''Quantum Computing'' 5 = Generator [paper_a, paper_a2] False \<and>
   fst (os_makedirs (topic_path demo_lib ''Quantum Computing'') demo_fs) = Inr () \<and>
   file_content demo_fs (topic_file demo_lib ''Quantum Computing'') = Some ''OLD'' \<and>
   json_loads demo_lib ''OLD'' =
     Inr (JObj [(''2101.00001v1'', JStr ''stale''), (''1909.03550v1'', JStr ''kept'')]) \<and>
   fst (search_papers demo_lib ''Quantum Computing'' 5 demo_fs) =
     Inr [''2101.00001v1'', ''2101.00001v1'']"
proof -
  have res: "client_results demo_lib ''Quantum Computing'' 5 = Generator [paper_a, paper_a2] False"
    by (simp add: demo_lib_def demo_client_def)
  have dir: "fst (os_makedirs (topic_path demo_lib ''Quantum Computing'') demo_fs) = Inr ()"
    by code_simp
  have store: "file_content demo_fs (topic_file demo_lib ''Quantum Computing'') = Some ''OLD''"
    by code_simp
  have loads: "json_loads demo_lib ''OLD'' =
     Inr (JObj [(''2101.00001v1'', JStr ''stale''), (''1909.03550v1'', JStr ''kept'')])"
    by (simp add: demo_lib_def demo_loads_def)
  from search_papers_merge [OF res dir store loads]
  have "fst (search_papers demo_lib ''Quantum Computing'' 5 demo_fs) =
          Inr (map get_short_id [paper_a, paper_a2])"
    by auto
  then have "fst (search_papers demo_lib ''Quantum Computing'' 5 demo_fs) =
     Inr [''2101.00001v1'', ''2101.00001v1'']"
    by (simp add: paper_a_def paper_a2_def)
  with res dir store loads show ?thesis by simp
qed

subsection \<open>Loading a store\<close>

text \<open>
  When the store's file is absent, or is there and \<^verbatim>\<open>json.load\<close> raises
  \<open>JSONDecodeError\<close> on it, loading completes normally with the empty mapping and changes
  nothing.
\<close>

lemma load_papers_info_empty:
  assumes "map_of s file_path = None \<or>
           (\<exists>t. map_of s file_path = Some (File t) \<and> json_loads L t = Inl JSONDecodeError)"
  shows "load_papers_info L file_path s = (Inr (JObj []), s)"
  using assms by (auto simp: load_papers_info_def try_load_def read_file_def)

text \<open>Any other exception of \<^verbatim>\<open>json.load\<close> leaves the \<^verbatim>\<open>try\<close> block.\<close>

lemma load_papers_info_raises:
  assumes "map_of s file_path = Some (File t)" and "json_loads L t = Inl e"
    and "e \<noteq> FileNotFoundError" and "e \<noteq> JSONDecodeError"
  shows "load_papers_info L file_path s = (Inl e, s)"
  using assms by (simp add: load_papers_info_def try_load_def read_file_def)

text \<open>
  Claim C3 does not hold of the code: a store file whose bytes are not text is not
  valid structured data, and loading it raises \<open>UnicodeDecodeError\<close>, which the
  \<^verbatim>\<open>except\<close> clause does not name. The search on that topic raises with it.
\<close>

theorem load_papers_info_undecodable:
  "map_of demo_fs (topic_file demo_lib ''Binary'') = Some (File [CHR 0xFF, CHR 0xFE]) \<and>
   json_loads demo_lib [CHR 0xFF, CHR 0xFE] = Inl UnicodeDecodeError \<and>
   load_papers_info demo_lib (topic_file demo_lib ''Binary'') demo_fs =
     (Inl UnicodeDecodeError, demo_fs) \<and>
   search_papers demo_lib ''Binary'' 5 demo_fs = (Inl UnicodeDecodeError, demo_fs)"
  by code_simp

subsection \<open>Text extraction\<close>

lemma extract_pages_texts:
  "extract_pages (map Page texts) total_text =
     Inr (total_text @ concat (map (\<lambda>t. if t = [] then [] else t @ [newline, newline]) texts))"
  by (induction texts arbitrary: total_text) auto

lemma try_extract_failed:
  "fst (try_extract L paper_path s) \<noteq> Inr (Some out) \<Longrightarrow>
   out = splitext_root paper_path @ ''.txt'' \<Longrightarrow> snd (try_extract L paper_path s) = s"
  by (auto simp: try_extract_def os_path_isfile_def read_file_def write_file_def Let_def
           split: option.splits node.splits sum.splits bool.splits prod.splits)

text \<open>
  When the path names no existing regular file, or the reader raises \<open>PdfReadError\<close> on
  opening the file or on one of its pages, extraction returns \<open>None\<close> and the file system
  is what it was.
\<close>

lemma extract_text_paper_None:
  assumes "file_content s paper_path = None \<or>
           (\<exists>bytes. file_content s paper_path = Some bytes \<and>
              (pdf_reader L bytes = Inl PdfReadError \<or>
               (\<exists>pages. pdf_reader L bytes = Inr pages \<and>
                  extract_pages pages [] = Inl PdfReadError)))"
  shows "extract_text_paper L paper_path s = (Inr None, s)"
  using assms
  by (auto simp: extract_text_paper_def try_extract_def os_path_isfile_def read_file_content)

text \<open>Whenever extraction does not return the output path, nothing was written.\<close>

lemma extract_text_paper_no_write:
  assumes "fst (extract_text_paper L paper_path s) \<noteq> Inr (Some (splitext_root paper_path @ ''.txt''))"
  shows "snd (extract_text_paper L paper_path s) = s"
proof -
  obtain r s1 where t: "try_extract L paper_path s = (r, s1)"
    by (cases "try_extract L paper_path s")
  from assms t have "r \<noteq> Inr (Some (splitext_root paper_path @ ''.txt''))"
    by (auto simp: extract_text_paper_def split: sum.splits if_splits)
  with t have "s1 = s"
    using try_extract_failed [of L paper_path s "splitext_root paper_path @ ''.txt''"] by simp
  with t show ?thesis
    by (auto simp: extract_text_paper_def split: sum.splits)
qed

text \<open>
  Claim C5 does not hold of the code: an existing file that the reader cannot parse may
  make it raise an exception other than \<open>PdfReadError\<close> (a \<open>KeyError\<close> on opening, a
  \<open>NotImplementedError\<close> on a page). The \<^verbatim>\<open>except\<close> clause does not name it, and the
  call raises instead of returning \<open>None\<close>. Nothing is written.
\<close>

theorem extract_text_paper_unparseable_raises:
  "file_content demo_fs ''broken.pdf'' = Some ''%PDF no root'' \<and>
   pdf_reader demo_lib ''%PDF no root'' = Inl KeyError \<and>
   extract_text_paper demo_lib ''broken.pdf'' demo_fs = (Inl KeyError, demo_fs) \<and>
   file_content demo_fs ''font.pdf'' = Some ''%PDF odd font'' \<and>
   pdf_reader demo_lib ''%PDF odd font'' = Inr [Page ''Page 1'', PageError NotImplementedError] \<and>
   extract_text_paper demo_lib ''font.pdf'' demo_fs = (Inl NotImplementedError, demo_fs)"
  by code_simp

text \<open>
  Claim C4. For a document that parses into pages with the texts \<open>texts\<close>, and an output
  path that is not a directory, extraction returns the output path and the output file
  holds, in page order, each non-empty text followed by two newlines, and nothing for an
  empty text. When page \<open>k\<close> of \<open>N\<close> has the text \<open>Page k\<close>, that is
  \<open>Page 1\n\nPage 2\n\n...Page N\n\n\<close>.
\<close>

theorem extract_text_paper_pages:
  assumes doc: "file_content s paper_path = Some bytes"
    and parse: "pdf_reader L bytes = Inr (map Page texts)"
    and out: "\<not> is_dir s (splitext_root paper_path @ ''.txt'')"
  shows "\<exists>s'. extract_text_paper L paper_path s = (Inr (Some (splitext_root paper_path @ ''.txt'')), s') \<and>
           file_content s' (splitext_root paper_path @ ''.txt'') =
             Some (concat (map (\<lambda>t. if t = [] then [] else t @ [newline, newline]) texts)) \<and>
           (texts = map (\<lambda>k. ''Page '' @ str_nat k) [1..<Suc N] \<longrightarrow>
              file_content s' (splitext_root paper_path @ ''.txt'') =
                Some (concat (map (\<lambda>k. ''Page '' @ str_nat k @ [newline, newline]) [1..<Suc N])))"
proof -
  let ?out = "splitext_root paper_path @ ''.txt''"
  let ?total = "concat (map (\<lambda>t. if t = [] then [] else t @ [newline, newline]) texts)"
  have w: "fst (write_file ?out ?total s) = Inr ()"
    using out by (rule write_file_succeeds)
  obtain s' where w': "write_file ?out ?total s = (Inr (), s')"
    using w by (cases "write_file ?out ?total s") auto
  have 1: "extract_text_paper L paper_path s = (Inr (Some ?out), s')"
    using doc parse w'
    by (simp add: extract_text_paper_def try_extract_def os_path_isfile_def read_file_content
          extract_pages_texts)
  have 2: "file_content s' ?out = Some ?total"
    using write_file_file_content [OF w, of ?out] w' by simp
  have 3: "?total = concat (map (\<lambda>k. ''Page '' @ str_nat k @ [newline, newline]) [1..<Suc N])"
    if "texts = map (\<lambda>k. ''Page '' @ str_nat k) [1..<Suc N]"
    unfolding that by (simp add: comp_def del: upt_Suc)
  from 1 2 3 show ?thesis by auto
qed

theorem extract_text_paper_pages_witness:
  "file_content demo_fs ''doc.pdf'' = Some ''%PDF two pages'' \<and>
   pdf_reader demo_lib ''%PDF two pages'' = Inr (map Page [''Page 1'', ''Page 2'']) \<and>
   \<not> is_dir demo_fs (splitext_root ''doc.pdf'' @ ''.txt'') \<and>
   [''Page 1'', ''Page 2''] = map (\<lambda>k. ''Page '' @ str_nat k) [1..<Suc 2] \<and>
   fst (extract_text_paper demo_lib ''doc.pdf'' demo_fs) = Inr (Some ''doc.txt'') \<and>
   file_content (snd (extract_text_paper demo_lib ''doc.pdf'' demo_fs)) ''doc.txt'' =
     Some (''Page 1'' @ [newline, newline] @ ''Page 2'' @ [newline, newline])"
proof -
  have doc: "file_content demo_fs ''doc.pdf'' = Some ''%PDF two pages''" by code_simp
  have parse: "pdf_reader demo_lib ''%PDF two pages'' = Inr (map Page [''Page 1'', ''Page 2''])"
    by (simp add: demo_lib_def demo_reader_def)
  have out: "\<not> is_dir demo_fs (splitext_root ''doc.pdf'' @ ''.txt'')" by code_simp
  have name: "splitext_root ''doc.pdf'' @ ''.txt'' = ''doc.txt''" by code_simp
  have texts: "[''Page 1'', ''Page 2''] = map (\<lambda>k. ''Page '' @ str_nat k) [1..<Suc 2]"
    by code_simp
  have cat: "concat (map (\<lambda>k. ''Page '' @ str_nat k @ [newline, newline]) [1..<Suc 2]) =
      ''Page 1'' @ [newline, newline] @ ''Page 2'' @ [newline, newline]"
    by code_simp
  from extract_text_paper_pages [OF doc parse out, of 2] texts
  obtain s' where
    "extract_text_paper demo_lib ''doc.pdf'' demo_fs = (Inr (Some (splitext_root ''doc.pdf'' @ ''.txt'')), s')"
    "file_content s' (splitext_root ''doc.pdf'' @ ''.txt'') =
       Some (concat (map (\<lambda>k. ''Page '' @ str_nat k @ [newline, newline]) [1..<Suc 2]))"
    by blast
  then have "fst (extract_text_paper demo_lib ''doc.pdf'' demo_fs) = Inr (Some ''doc.txt'')"
    and "file_content (snd (extract_text_paper demo_lib ''doc.pdf'' demo_fs)) ''doc.txt'' =
     Some (''Page 1'' @ [newline, newline] @ ''Page 2'' @ [newline, newline])"
    unfolding name cat by simp_all
  with doc parse out texts show ?thesis by simp
qed

subsection \<open>A failing collaborator\<close>

lemma search_papers_file_content_failed:
  assumes "fst (search_papers L topic n s) = Inl e"
  shows "file_content (snd (search_papers L topic n s)) p = file_content s p"
proof (cases "client_results L topic n")
  case RaiseAtCall
  then show ?thesis by (simp add: search_papers_def)
next
  case (Generator hits fails)
  obtain r1 s1 where m: "os_makedirs (topic_path L topic) s = (r1, s1)"
    by (cases "os_makedirs (topic_path L topic) s")
  have fc: "file_content s1 p = file_content s p"
    using os_makedirs_file_content [of "topic_path L topic" s p] m by simp
  obtain r2 s2 where l: "load_papers_info L (topic_file L topic) s1 = (r2, s2)"
    by (cases "load_papers_info L (topic_file L topic) s1")
  have s2: "s2 = s1" using load_papers_info_state [of L "topic_file L topic" s1] l by simp
  from assms Generator m l fc show ?thesis
    unfolding search_papers_def s2
    by (auto simp: write_file_def split: sum.splits prod.splits if_splits option.splits node.splits)
qed

text \<open>
  Claim C6. When the collaborator raises, at the call or at the end of the hits it
  yields, the search raises and every file has the content it had before: no store is
  written, whatever hits were processed. The exception is the collaborator's own
  whenever the directory could be created and the store loaded as a mapping.
\<close>

theorem search_papers_upstream_failure:
  assumes "client_results L topic n = RaiseAtCall \<or>
           (\<exists>hits. client_results L topic n = Generator hits True)"
  shows "(\<exists>e. fst (search_papers L topic n s) = Inl e) \<and>
         (\<forall>p. file_content (snd (search_papers L topic n s)) p = file_content s p) \<and>
         (fst (os_makedirs (topic_path L topic) s) = Inr () \<and>
          (\<exists>old. fst (load_papers_info L (topic_file L topic) s) = Inr (JObj old)) \<longrightarrow>
            fst (search_papers L topic n s) = Inl UpstreamError)"
proof -
  have 1: "\<exists>e. fst (search_papers L topic n s) = Inl e"
    using assms
    by (auto simp: search_papers_def split: sum.splits prod.splits)
  then have 2: "file_content (snd (search_papers L topic n s)) p = file_content s p" for p
    using search_papers_file_content_failed by blast
  have 3: "fst (search_papers L topic n s) = Inl UpstreamError"
    if m: "fst (os_makedirs (topic_path L topic) s) = Inr ()"
    and l: "fst (load_papers_info L (topic_file L topic) s) = Inr (JObj old)" for old
  proof -
    obtain s1 where m1: "os_makedirs (topic_path L topic) s = (Inr (), s1)"
      using m by (cases "os_makedirs (topic_path L topic) s") auto
    have "map_of s1 (topic_file L topic) = map_of s (topic_file L topic)"
      using os_makedirs_map_of [OF topic_file_longer, of L topic s] m1 by simp
    then have "fst (load_papers_info L (topic_file L topic) s1) = Inr (JObj old)"
      using load_papers_info_cong l by metis
    then have l1: "load_papers_info L (topic_file L topic) s1 = (Inr (JObj old), s1)"
      using load_papers_info_state [of L "topic_file L topic" s1]
      by (cases "load_papers_info L (topic_file L topic) s1") auto
    from assms show ?thesis
    proof
      assume "client_results L topic n = RaiseAtCall"
      then show ?thesis by (simp add: search_papers_def)
    next
      assume "\<exists>hits. client_results L topic n = Generator hits True"
      then obtain hits where g: "client_results L topic n = Generator hits True" ..
      obtain new where "process_papers hits (JObj old) [] = Inr (JObj new, map get_short_id hits)"
        using process_papers_JObj [of hits old "[]"] by auto
      then show ?thesis by (simp add: search_papers_def g m1 l1)
    qed
  qed
  from 1 2 3 show ?thesis by blast
qed


theorem search_papers_upstream_failure_witness:
  "(client_results demo_lib ''Broken Stream'' 5 = RaiseAtCall \<or>
    client_results demo_lib ''Broken Stream'' 5 = Generator [paper_a] True) \<and>
   fst (os_makedirs (topic_path demo_lib ''Broken Stream'') demo_fs) = Inr () \<and>
   fst (load_papers_info demo_lib (topic_file demo_lib ''Broken Stream'') demo_fs) = Inr (JObj []) \<and>
   fst (search_papers demo_lib ''Broken Stream'' 5 demo_fs) = Inl UpstreamError \<and>
   file_content (snd (search_papers demo_lib ''Broken Stream'' 5 demo_fs))
     ''papers/quantum_computing/papers_info.json'' = Some ''OLD''"
proof -
  have g: "client_results demo_lib ''Broken Stream'' 5 = Generator [paper_a] True"
    by (simp add: demo_lib_def demo_client_def)
  have m: "fst (os_makedirs (topic_path demo_lib ''Broken Stream'') demo_fs) = Inr ()"
    by code_simp
  have l: "fst (load_papers_info demo_lib (topic_file demo_lib ''Broken Stream'') demo_fs) = Inr (JObj [])"
    by code_simp
  have old: "file_content demo_fs ''papers/quantum_computing/papers_info.json'' = Some ''OLD''"
    by code_simp
  have "client_results demo_lib ''Broken Stream'' 5 = RaiseAtCall \<or>
        (\<exists>hits. client_results demo_lib ''Broken Stream'' 5 = Generator hits True)"
    using g by simp
  from search_papers_upstream_failure [OF this, of demo_fs] m l old
  have "fst (search_papers demo_lib ''Broken Stream'' 5 demo_fs) = Inl UpstreamError"
    and "file_content (snd (search_papers demo_lib ''Broken Stream'' 5 demo_fs))
     ''papers/quantum_computing/papers_info.json'' = Some ''OLD''"
    by auto
  with g m l show ?thesis by simp
qed

lemma write_file_dirs: "is_dir (snd (write_file p c s)) q = is_dir s q"
  by (auto simp: write_file_def is_dir_def update_conv' split: option.splits node.splits)

lemma search_papers_dirs:
  assumes g: "client_results L topic n = Generator hits fails"
  shows "is_dir (snd (search_papers L topic n s)) p =
         is_dir (snd (os_makedirs (topic_path L topic) s)) p"
proof -
  obtain r1 s1 where m1: "os_makedirs (topic_path L topic) s = (r1, s1)"
    by (cases "os_makedirs (topic_path L topic) s")
  obtain r2 where l: "load_papers_info L (topic_file L topic) s1 = (r2, s1)"
    using load_papers_info_state [of L "topic_file L topic" s1]
    by (cases "load_papers_info L (topic_file L topic) s1") auto
  have w: "is_dir s3 p = is_dir s1 p"
    if "write_file (topic_file L topic) c s1 = (r3, s3)" for c r3 s3
    using write_file_dirs [of "topic_file L topic" c s1 p] that by simp
  show ?thesis
    using w by (auto simp: search_papers_def g m1 l split: sum.splits prod.splits)
qed

text \<open>
  Claim C7 as stated fails: a search whose result stream raises while it is consumed has
  already created the topic's directory.
\<close>

theorem search_papers_failure_creates_directory:
  "client_results demo_lib ''Broken Stream'' 5 = Generator [paper_a] True \<and>
   fst (search_papers demo_lib ''Broken Stream'' 5 demo_fs) = Inl UpstreamError \<and>
   \<not> is_dir demo_fs (topic_path demo_lib ''Broken Stream'') \<and>
   is_dir (snd (search_papers demo_lib ''Broken Stream'' 5 demo_fs))
     (topic_path demo_lib ''Broken Stream'')"
  by code_simp

text \<open>
  Claim C7, amended. A search call that obtains the collaborator's result stream creates
  the topic's directory before any hit is consumed: after the call the directories are
  those that \<^verbatim>\<open>os.makedirs\<close> leaves, whether the stream then ends or raises, so the
  topic's directory exists whenever it could be created, also after a search that fails
  in the collaborator while the results are iterated. A search call whose collaborator
  raises before it returns the stream leaves the file system as it was.
\<close>

theorem search_papers_directory:
  "(client_results L topic n = RaiseAtCall \<longrightarrow> snd (search_papers L topic n s) = s) \<and>
   ((\<exists>hits fails. client_results L topic n = Generator hits fails) \<longrightarrow>
      (\<forall>p. is_dir (snd (search_papers L topic n s)) p =
            is_dir (snd (os_makedirs (topic_path L topic) s)) p) \<and>
      (fst (os_makedirs (topic_path L topic) s) = Inr () \<longrightarrow>
         is_dir (snd (search_papers L topic n s)) (topic_path L topic)))"
proof -
  have 1: "snd (search_papers L topic n s) = s" if "client_results L topic n = RaiseAtCall"
    using that by (simp add: search_papers_def)
  have 2: "is_dir (snd (search_papers L topic n s)) p =
           is_dir (snd (os_makedirs (topic_path L topic) s)) p"
    if "client_results L topic n = Generator hits fails" for hits fails p
    using that by (rule search_papers_dirs)
  have 3: "is_dir (snd (search_papers L topic n s)) (topic_path L topic)"
    if g: "client_results L topic n = Generator hits fails"
    and m: "fst (os_makedirs (topic_path L topic) s) = Inr ()" for hits fails
    using search_papers_dirs [OF g] os_makedirs_is_dir [OF m] by simp
  from 1 2 3 show ?thesis by blast
qed

theorem search_papers_directory_witness:
  "client_results demo_lib ''Down'' 5 = RaiseAtCall \<and>
   snd (search_papers demo_lib ''Down'' 5 demo_fs) = demo_fs \<and>
   client_results demo_lib ''Broken Stream'' 5 = Generator [paper_a] True \<and>
   fst (os_makedirs (topic_path demo_lib ''Broken Stream'') demo_fs) = Inr () \<and>
   is_dir (snd (search_papers demo_lib ''Broken Stream'' 5 demo_fs))
     (topic_path demo_lib ''Broken Stream'') \<and>
   is_dir (snd (search_papers demo_lib ''Broken Stream'' 5 demo_fs)) ''papers/notes'' =
     is_dir (snd (os_makedirs (topic_path demo_lib ''Broken Stream'') demo_fs)) ''papers/notes''"
proof -
  have r: "client_results demo_lib ''Down'' 5 = RaiseAtCall"
    by (simp add: demo_lib_def demo_client_def)
  have g: "client_results demo_lib ''Broken Stream'' 5 = Generator [paper_a] True"
    by (simp add: demo_lib_def demo_client_def)
  have m: "fst (os_makedirs (topic_path demo_lib ''Broken Stream'') demo_fs) = Inr ()"
    by code_simp
  note inst = search_papers_directory [of demo_lib _ 5 demo_fs]
  have "snd (search_papers demo_lib ''Down'' 5 demo_fs) = demo_fs"
    using inst [of "''Down''"] r by simp
  moreover have "is_dir (snd (search_papers demo_lib ''Broken Stream'' 5 demo_fs))
      (topic_path demo_lib ''Broken Stream'')"
    using inst [of "''Broken Stream''"] g m by blast
  moreover have "is_dir (snd (search_papers demo_lib ''Broken Stream'' 5 demo_fs)) ''papers/notes'' =
     is_dir (snd (os_makedirs (topic_path demo_lib ''Broken Stream'') demo_fs)) ''papers/notes''"
    using inst [of "''Broken Stream''"] g by blast
  ultimately show ?thesis using r g m by simp
qed

subsection \<open>The identifiers a search returns\<close>

text \<open>
  Claim C9. When a search returns the list \<open>ids\<close>, the collaborator yielded hits whose
  ids, in order and with repetitions, are \<open>ids\<close>; and for every id in the list the store
  file now holds a mapping in which that id has the record built from the last hit
  bearing it.
\<close>

theorem search_papers_returned_ids:
  assumes "search_papers L topic n s = (Inr ids, s')"
  shows "\<exists>hits. client_results L topic n = Generator hits False \<and>
           ids = map get_short_id hits \<and>
           (\<forall>i \<in> set ids. \<exists>new h.
              file_content s' (topic_file L topic) = Some (json_dumps L (JObj new)) \<and>
              find (\<lambda>h. get_short_id h = i) (rev hits) = Some h \<and>
              map_of new i = Some (paper_info h))"
proof -
  let ?f = "topic_file L topic"
  from search_papers_Inr [OF assms] obtain hits s1 j j' where
    g: "client_results L topic n = Generator hits False"
    and run: "process_papers hits j [] = Inr (j', ids)"
    and w: "write_file ?f (json_dumps L j') s1 = (Inr (), s')"
    by blast
  have ids: "ids = map get_short_id hits"
    using process_papers_ids [OF run] by simp
  have fc: "file_content s' ?f = Some (json_dumps L j')"
    using write_file_file_content [of ?f "json_dumps L j'" s1 "()" ?f] w by simp
  have "\<exists>new h. file_content s' ?f = Some (json_dumps L (JObj new)) \<and>
              find (\<lambda>h. get_short_id h = i) (rev hits) = Some h \<and>
              map_of new i = Some (paper_info h)" if i: "i \<in> set ids" for i
  proof -
    from i ids have ne: "hits \<noteq> []" by auto
    from process_papers_dict [OF run ne] obtain old where j: "j = JObj old" ..
    from process_papers_JObj [of hits old "[]"] run j obtain new where
      j': "j' = JObj new"
      and look: "map_of new i =
        (case find (\<lambda>h. get_short_id h = i) (rev hits) of
           None \<Rightarrow> map_of old i
         | Some h \<Rightarrow> Some (paper_info h))"
      by auto
    from i ids have "i \<in> get_short_id ` set hits" by simp
    from find_in_set [OF this] obtain h where
      "find (\<lambda>h. get_short_id h = i) (rev hits) = Some h" by blast
    with look fc j' show ?thesis by auto
  qed
  with g ids show ?thesis by blast
qed

theorem search_papers_returned_ids_witness:
  "search_papers demo_lib ''Quantum Computing'' 5 demo_fs =
     (Inr [''2101.00001v1'', ''2101.00001v1''],
      AList.update ''papers/quantum_computing/papers_info.json'' (File ''NEW'') demo_fs) \<and>
   (\<exists>hits. client_results demo_lib ''Quantum Computing'' 5 = Generator hits False \<and>
      [''2101.00001v1'', ''2101.00001v1''] = map get_short_id hits)"
proof -
  have run: "search_papers demo_lib ''Quantum Computing'' 5 demo_fs =
     (Inr [''2101.00001v1'', ''2101.00001v1''],
      AList.update ''papers/quantum_computing/papers_info.json'' (File ''NEW'') demo_fs)"
    by code_simp
  from search_papers_returned_ids [OF run] obtain hits where
    "client_results demo_lib ''Quantum Computing'' 5 = Generator hits False"
    "[''2101.00001v1'', ''2101.00001v1''] = map get_short_id hits"
    by (elim exE conjE)
  then have "\<exists>hits. client_results demo_lib ''Quantum Computing'' 5 = Generator hits False \<and>
      [''2101.00001v1'', ''2101.00001v1''] = map get_short_id hits"
    by (intro exI conjI)
  with run show ?thesis by (intro conjI)
qed

subsection \<open>Resolving an identifier\<close>

lemma lookup_store_state: "snd (lookup_store L paper_id file_path s) = s"
  by (auto simp: lookup_store_def read_file_def
           split: option.splits node.splits sum.splits bool.splits)

lemma scan_items_state: "snd (scan_items L paper_id items s) = s"
proof (induction items)
  case Nil
  then show ?case by simp
next
  case (Cons item items)
  let ?file = "os_path_join (os_path_join PAPER_DIR item) ''papers_info.json''"
  obtain r where l: "lookup_store L paper_id ?file s = (r, s)"
    using lookup_store_state [of L paper_id ?file s]
    by (cases "lookup_store L paper_id ?file s") auto
  show ?case
    using Cons
    by (auto simp: Let_def os_path_isdir_def os_path_isfile_def l split: sum.splits option.splits bool.splits)
qed

text \<open>
  With the corpus root in place, an id that no store has is answered by the not-found
  message, when every store file either makes \<^verbatim>\<open>json.load\<close> raise \<open>JSONDecodeError\<close> or
  holds an object.
\<close>

lemma scan_items_not_found:
  assumes "\<And>item text. item \<in> set items \<Longrightarrow>
             file_content s (os_path_join (os_path_join PAPER_DIR item) ''papers_info.json'') = Some text \<Longrightarrow>
             json_loads L text = Inl JSONDecodeError \<or>
             (\<exists>al. json_loads L text = Inr (JObj al) \<and> paper_id \<notin> fst ` set al)"
  shows "scan_items L paper_id items s = (Inr (not_found_message paper_id), s)"
  using assms
proof (induction items)
  case Nil
  then show ?case by simp
next
  case (Cons item items)
  let ?file = "os_path_join (os_path_join PAPER_DIR item) ''papers_info.json''"
  have rest: "scan_items L paper_id items s = (Inr (not_found_message paper_id), s)"
    using Cons.prems by (intro Cons.IH) auto
  show ?case
  proof (cases "file_content s ?file")
    case None
    with rest show ?thesis
      by (simp add: Let_def os_path_isdir_def os_path_isfile_def split: bool.splits)
  next
    case (Some t)
    from Cons.prems [of item t] Some
    have "json_loads L t = Inl JSONDecodeError \<or>
          (\<exists>al. json_loads L t = Inr (JObj al) \<and> paper_id \<notin> fst ` set al)"
      by simp
    then have "lookup_store L paper_id ?file s = (Inl JSONDecodeError, s) \<or>
               lookup_store L paper_id ?file s = (Inr None, s)"
      using read_file_content [OF Some] by (auto simp: lookup_store_def)
    with rest Some show ?thesis
      by (auto simp: Let_def os_path_isdir_def os_path_isfile_def split: bool.splits)
  qed
qed

lemma extract_info_not_found:
  assumes "is_dir s PAPER_DIR"
    and "\<And>item text.
           file_content s (os_path_join (os_path_join PAPER_DIR item) ''papers_info.json'') = Some text \<Longrightarrow>
           json_loads L text = Inl JSONDecodeError \<or>
           (\<exists>al. json_loads L text = Inr (JObj al) \<and> paper_id \<notin> fst ` set al)"
  shows "extract_info L paper_id s = (Inr (not_found_message paper_id), s)"
  using assms(1) scan_items_not_found [of _ s L paper_id, OF assms(2)]
  by (simp add: extract_info_def os_listdir_def is_dir_def)

text \<open>
  Claim C10. Resolving an identifier returns the file system it was given, found or not:
  no file and no directory is created, changed or removed.
\<close>

theorem extract_info_read_only: "snd (extract_info L paper_id s) = s"
  by (auto simp: extract_info_def os_listdir_def scan_items_state
           split: option.splits node.splits)

theorem extract_info_read_only_witness:
  "snd (extract_info demo_lib ''2101.00001v1'' demo_fs) = demo_fs \<and>
   snd (extract_info demo_lib ''0000.00000v1'' demo_fs) = demo_fs"
  using extract_info_read_only [of demo_lib "''2101.00001v1''" demo_fs]
        extract_info_read_only [of demo_lib "''0000.00000v1''" demo_fs]
  by simp


text \<open>
  Claim C2 does not hold of the code: the listing of the corpus root is outside the
  \<^verbatim>\<open>try\<close> block, so on a file system without the root directory the call raises
  \<open>FileNotFoundError\<close> instead of returning the not-found message.
\<close>

theorem extract_info_missing_root:
  "extract_info L paper_id [] = (Inl FileNotFoundError, [])"
  by (simp add: extract_info_def os_listdir_def)

subsection \<open>The directory name of a topic\<close>




end
